theory Spec2Isabelle
  imports Complex_Main
begin

section \<open>The relational store\<close>

text \<open>
  The tables of the schema that the order and product routes read and write. A table is
  the list of its rows; columns that no modelled statement reads or writes (timestamps,
  slugs, postal codes) are left out. Numbers of the request body and DECIMAL columns are
  exact rationals: the rounding of IEEE doubles and of DECIMAL(12, 2) is not part of the
  model.
\<close>

record product =
  p_id :: string
  p_name :: string
  p_description :: "string option"
  p_price :: rat
  p_image :: "string option"
  p_category_id :: "string option"
  p_stock :: int
  p_rating :: rat
  p_reviews_count :: int

record category =
  c_id :: string
  c_name :: string

record address =
  a_id :: string
  a_user_id :: string
  a_street :: string
  a_city :: string
  a_district :: string
  a_country :: string

datatype order_status = Pending | Processing | Shipped | Delivered | Cancelled

record order =
  o_id :: string
  o_user_id :: string
  o_total :: rat
  o_vat_amount :: rat
  o_status :: order_status
  o_payment_method :: string
  o_shipping_address_id :: "string option"
  o_notes :: "string option"

record order_item =
  oi_id :: string
  oi_order_id :: string
  oi_product_id :: string
  oi_quantity :: int
  oi_price :: rat

record store =
  products :: "product list"
  categories :: "category list"
  addresses :: "address list"
  orders :: "order list"
  order_items :: "order_item list"

text \<open>The authenticated caller, as the routes read it from \<open>req.user\<close>.\<close>

record user =
  u_id :: string
  u_is_admin :: bool

section \<open>Requests and responses\<close>

record item_req =
  productId :: string
  quantity :: int

record address_req =
  street :: "string option"
  city :: "string option"
  district :: "string option"
  country :: "string option"

record order_req =
  items :: "item_req list"
  total :: rat
  vatAmount :: rat
  paymentMethod :: string
  shippingAddress :: "address_req option"
  req_notes :: "string option"

record product_patch =
  pp_name :: "string option"
  pp_description :: "string option"
  pp_price :: "rat option"
  pp_image :: "string option"
  pp_categoryId :: "string option"
  pp_stock :: "int option"

datatype field_error =
    Items_invalid
  | ProductId_invalid nat
  | Quantity_invalid nat
  | Total_invalid
  | VatAmount_invalid
  | PaymentMethod_invalid
  | Name_invalid
  | Description_invalid
  | Price_invalid
  | CategoryId_invalid
  | Stock_invalid

record address_view =
  av_street :: string
  av_city :: string
  av_district :: string
  av_country :: string

record item_view =
  iv_id :: string
  iv_productId :: string
  iv_name :: string
  iv_image :: "string option"
  iv_quantity :: int
  iv_price :: rat

record order_view =
  ov_id :: string
  ov_total :: rat
  ov_vatAmount :: rat
  ov_status :: order_status
  ov_paymentMethod :: string
  ov_notes :: "string option"
  ov_shippingAddress :: "address_view option"
  ov_items :: "item_view list"

record product_view =
  pv_id :: string
  pv_name :: string
  pv_description :: "string option"
  pv_price :: rat
  pv_image :: "string option"
  pv_category :: "string option"
  pv_stock :: int
  pv_rating :: rat
  pv_reviews :: int

datatype json_body =
    ValidationErrors "field_error list"
  | ErrorMessage string
  | OrderCreated order_view
  | OrderJson order_view
  | ProductUpdated product_view

datatype response = Response nat json_body

text \<open>What makes a statement of the handler throw; every one of them ends in the
  \<open>catch\<close> block of its route.\<close>

datatype js_error = TypeError | BindUndefined | ER_DUP_ENTRY | ER_NO_REFERENCED_ROW

text \<open>How a step of a handler ends early: with a response it sent itself, or with an
  exception.\<close>

datatype exit = Respond response | Throw js_error

definition internal_server_error :: response where
  "internal_server_error = Response 500 (ErrorMessage ''Internal server error'')"

definition products_not_found :: response where
  "products_not_found = Response 400 (ErrorMessage ''Some products not found'')"

definition insufficient_stock :: "string \<Rightarrow> response" where
  "insufficient_stock name = Response 400 (ErrorMessage (''Insufficient stock for '' @ name))"

definition invalid_total :: response where
  "invalid_total = Response 400 (ErrorMessage ''Invalid total calculation'')"

definition order_not_found :: response where
  "order_not_found = Response 404 (ErrorMessage ''Order not found'')"

section \<open>Statements on the store\<close>

text \<open>\<open>SELECT id, name, price, stock FROM products WHERE id IN (...)\<close>\<close>

definition select_products_in :: "store \<Rightarrow> string list \<Rightarrow> product list" where
  "select_products_in s ids = filter (\<lambda>p. p_id p \<in> set ids) (products s)"

text \<open>\<open>new Map(products.map(p => [p.id, p]))\<close>: a later entry replaces an earlier one
  with the same key.\<close>

definition productMap :: "product list \<Rightarrow> (string \<rightharpoonup> product)" where
  "productMap ps = map_of (rev (map (\<lambda>p. (p_id p, p)) ps))"

text \<open>\<open>INSERT INTO addresses\<close>. A bind parameter that is \<open>undefined\<close> makes
  \<open>execute\<close> throw; the id is the primary key.\<close>

definition insert_address ::
  "store \<Rightarrow> string \<Rightarrow> string \<Rightarrow> address_req \<Rightarrow> js_error + store" where
  "insert_address tx aid uid a =
     (case (street a, city a, district a) of
        (Some st, Some ci, Some di) \<Rightarrow>
          if aid \<in> set (map a_id (addresses tx)) then Inl ER_DUP_ENTRY
          else Inr (tx\<lparr>addresses := addresses tx @
                 [\<lparr>a_id = aid, a_user_id = uid, a_street = st, a_city = ci, a_district = di,
                   a_country = (case country a of None \<Rightarrow> ''Uganda''
                                | Some c \<Rightarrow> if c = [] then ''Uganda'' else c)\<rparr>]\<rparr>)
      | _ \<Rightarrow> Inl BindUndefined)"

text \<open>\<open>INSERT INTO orders\<close>: the status column is not given and takes its default,
  \<open>pending\<close>.\<close>

definition insert_order ::
  "store \<Rightarrow> string \<Rightarrow> string \<Rightarrow> rat \<Rightarrow> rat \<Rightarrow> string \<Rightarrow> string option \<Rightarrow> string option
     \<Rightarrow> js_error + store" where
  "insert_order tx oid uid tot vat pm aid nts =
     (if oid \<in> set (map o_id (orders tx)) then Inl ER_DUP_ENTRY
      else Inr (tx\<lparr>orders := orders tx @
             [\<lparr>o_id = oid, o_user_id = uid, o_total = tot, o_vat_amount = vat,
               o_status = Pending, o_payment_method = pm, o_shipping_address_id = aid,
               o_notes = nts\<rparr>]\<rparr>))"

text \<open>\<open>INSERT INTO order_items\<close>: primary key on the id, foreign key on the product.\<close>

definition insert_order_item ::
  "store \<Rightarrow> string \<Rightarrow> string \<Rightarrow> string \<Rightarrow> int \<Rightarrow> rat \<Rightarrow> js_error + store" where
  "insert_order_item tx iid oid pid qty price =
     (if iid \<in> set (map oi_id (order_items tx)) then Inl ER_DUP_ENTRY
      else if pid \<notin> set (map p_id (products tx)) then Inl ER_NO_REFERENCED_ROW
      else Inr (tx\<lparr>order_items := order_items tx @
             [\<lparr>oi_id = iid, oi_order_id = oid, oi_product_id = pid, oi_quantity = qty,
               oi_price = price\<rparr>]\<rparr>))"

text \<open>\<open>UPDATE products SET stock = stock - ? WHERE id = ?\<close>\<close>

definition update_stock :: "store \<Rightarrow> int \<Rightarrow> string \<Rightarrow> store" where
  "update_stock tx qty pid =
     tx\<lparr>products := map (\<lambda>p. if p_id p = pid then p\<lparr>p_stock := p_stock p - qty\<rparr> else p)
                         (products tx)\<rparr>"

text \<open>\<open>SELECT o.*, a.street, ... FROM orders o LEFT JOIN addresses a
  ON o.shipping_address_id = a.id WHERE [cond]\<close>\<close>

definition select_orders_join ::
  "store \<Rightarrow> (order \<Rightarrow> bool) \<Rightarrow> (order \<times> address option) list" where
  "select_orders_join s cond =
     concat (map (\<lambda>ord.
        (case filter (\<lambda>a. o_shipping_address_id ord = Some (a_id a)) (addresses s) of
           [] \<Rightarrow> [(ord, None)]
         | as \<Rightarrow> map (\<lambda>a. (ord, Some a)) as))
       (filter cond (orders s)))"

text \<open>\<open>SELECT oi.*, p.name, p.image FROM order_items oi JOIN products p
  ON oi.product_id = p.id WHERE oi.order_id = ?\<close>\<close>

definition select_order_items :: "store \<Rightarrow> string \<Rightarrow> (order_item \<times> product) list" where
  "select_order_items s oid =
     concat (map (\<lambda>oi. map (\<lambda>p. (oi, p)) (filter (\<lambda>p. p_id p = oi_product_id oi) (products s)))
       (filter (\<lambda>oi. oi_order_id oi = oid) (order_items s)))"

definition item_json :: "order_item \<times> product \<Rightarrow> item_view" where
  "item_json r = (case r of (oi, p) \<Rightarrow>
     \<lparr>iv_id = oi_id oi, iv_productId = oi_product_id oi, iv_name = p_name p,
      iv_image = p_image p, iv_quantity = oi_quantity oi, iv_price = oi_price oi\<rparr>)"

text \<open>The order object of the responses; \<open>order.street ? {...} : null\<close> is null for a
  missing address and for an empty street.\<close>

definition order_json :: "order \<times> address option \<Rightarrow> (order_item \<times> product) list \<Rightarrow> order_view" where
  "order_json r its = (case r of (ord, adr) \<Rightarrow>
     \<lparr>ov_id = o_id ord, ov_total = o_total ord, ov_vatAmount = o_vat_amount ord,
      ov_status = o_status ord, ov_paymentMethod = o_payment_method ord,
      ov_notes = o_notes ord,
      ov_shippingAddress =
        (case adr of None \<Rightarrow> None
         | Some a \<Rightarrow> if a_street a = [] then None
                     else Some \<lparr>av_street = a_street a, av_city = a_city a,
                                 av_district = a_district a, av_country = a_country a\<rparr>),
      ov_items = map item_json its\<rparr>)"

section \<open>GET /api/orders/:id\<close>

definition get_order :: "user \<Rightarrow> store \<Rightarrow> string \<Rightarrow> response" where
  "get_order usr s oid =
     (case select_orders_join s
             (\<lambda>ord. o_id ord = oid \<and> (o_user_id ord = u_id usr \<or> u_is_admin usr)) of
        [] \<Rightarrow> order_not_found
      | r # _ \<Rightarrow> Response 200 (OrderJson (order_json r (select_order_items s (o_id (fst r))))))"

section \<open>POST /api/orders\<close>

text \<open>The sanitizer \<open>trim()\<close> of the validation chain.\<close>

definition is_space :: "char \<Rightarrow> bool" where
  "is_space c = (c \<in> set [CHR '' '', CHR 0x09, CHR 0x0A, CHR 0x0B, CHR 0x0C, CHR 0x0D])"

definition trim :: "string \<Rightarrow> string" where
  "trim x = rev (dropWhile is_space (rev (dropWhile is_space x)))"

text \<open>The validation chain of the route. \<open>isUUID\<close> is the validator library's predicate
  and is a parameter. The errors come in the order of the chain.\<close>

definition validationResult :: "(string \<Rightarrow> bool) \<Rightarrow> order_req \<Rightarrow> field_error list" where
  "validationResult isUUID req =
     (if length (items req) < 1 then [Items_invalid] else [])
     @ map ProductId_invalid
         (filter (\<lambda>i. \<not> isUUID (productId (items req ! i))) [0..<length (items req)])
     @ map Quantity_invalid
         (filter (\<lambda>i. quantity (items req ! i) < 1) [0..<length (items req)])
     @ (if total req < 0 then [Total_invalid] else [])
     @ (if vatAmount req < 0 then [VatAmount_invalid] else [])
     @ (if paymentMethod req \<notin> set [''mobile_money'', ''card'', ''cash'']
        then [PaymentMethod_invalid] else [])"

text \<open>The loop "Check stock and calculate total": it leaves at the first line whose
  quantity exceeds the stock of the snapshot.\<close>

fun check_stock :: "(string \<rightharpoonup> product) \<Rightarrow> item_req list \<Rightarrow> rat \<Rightarrow> exit + rat" where
  "check_stock pm [] calculatedTotal = Inr calculatedTotal"
| "check_stock pm (item # rest) calculatedTotal =
     (case pm (productId item) of
        None \<Rightarrow> Inl (Throw TypeError)
      | Some product \<Rightarrow>
          if p_stock product < quantity item
          then Inl (Respond (insufficient_stock (p_name product)))
          else check_stock pm rest (calculatedTotal + p_price product * of_int (quantity item)))"

definition expectedVat :: "rat \<Rightarrow> rat" where
  "expectedVat calculatedTotal = calculatedTotal * (18 / 100)"

definition expectedTotal :: "rat \<Rightarrow> rat" where
  "expectedTotal calculatedTotal = calculatedTotal + expectedVat calculatedTotal"

text \<open>The read-only part of the handler, from the validation result to the comparison
  of the totals. It returns the product map of the snapshot.\<close>

definition check_order ::
  "(string \<Rightarrow> bool) \<Rightarrow> store \<Rightarrow> order_req \<Rightarrow> exit + (string \<rightharpoonup> product)" where
  "check_order isUUID s req =
     (let errors = validationResult isUUID req in
      if errors \<noteq> [] then Inl (Respond (Response 400 (ValidationErrors errors)))
      else
        let productIds = map productId (items req);
            prods = select_products_in s productIds
        in if length prods \<noteq> length (items req) then Inl (Respond products_not_found)
           else
             (case check_stock (productMap prods) (items req) 0 of
                Inl e \<Rightarrow> Inl e
              | Inr calculatedTotal \<Rightarrow>
                  if \<bar>expectedTotal calculatedTotal - total req\<bar> > 1 / 100
                     \<or> \<bar>expectedVat calculatedTotal - vatAmount req\<bar> > 1 / 100
                  then Inl (Respond invalid_total)
                  else Inr (productMap prods)))"

text \<open>The loop "Create order items and update stock". \<open>n\<close> counts the calls of
  \<open>uuidv4\<close> made so far.\<close>

fun create_items ::
  "(nat \<Rightarrow> string) \<Rightarrow> nat \<Rightarrow> string \<Rightarrow> (string \<rightharpoonup> product) \<Rightarrow> store \<Rightarrow> item_req list
     \<Rightarrow> js_error + store" where
  "create_items uuidv4 n orderId pm tx [] = Inr tx"
| "create_items uuidv4 n orderId pm tx (item # rest) =
     (case pm (productId item) of
        None \<Rightarrow> Inl TypeError
      | Some product \<Rightarrow>
          (case insert_order_item tx (uuidv4 n) orderId (productId item) (quantity item)
                  (p_price product) of
             Inl e \<Rightarrow> Inl e
           | Inr tx1 \<Rightarrow>
               create_items uuidv4 (Suc n) orderId pm
                 (update_stock tx1 (quantity item) (productId item)) rest))"

text \<open>The writes of the handler, from the shipping address to the last stock update.
  \<open>uuidv4 k\<close> is the result of the k-th call of \<open>uuidv4()\<close> in this request. The result
  is the id of the order and the store to commit.\<close>

definition write_order ::
  "(nat \<Rightarrow> string) \<Rightarrow> user \<Rightarrow> (string \<rightharpoonup> product) \<Rightarrow> order_req \<Rightarrow> store
     \<Rightarrow> js_error + (string \<times> store)" where
  "write_order uuidv4 usr pm req tx =
     (case (case shippingAddress req of
              None \<Rightarrow> Inr (None, 0, tx)
            | Some a \<Rightarrow>
                (case insert_address tx (uuidv4 0) (u_id usr) a of
                   Inl e \<Rightarrow> Inl e
                 | Inr tx1 \<Rightarrow> Inr (Some (uuidv4 0), Suc 0, tx1))) of
        Inl e \<Rightarrow> Inl e
      | Inr (shippingAddressId, n, tx1) \<Rightarrow>
          (let orderId = uuidv4 n;
               nts = (case req_notes req of None \<Rightarrow> None
                      | Some x \<Rightarrow> if trim x = [] then None else Some (trim x))
           in case insert_order tx1 orderId (u_id usr) (total req) (vatAmount req)
                     (paymentMethod req) shippingAddressId nts of
                Inl e \<Rightarrow> Inl e
              | Inr tx2 \<Rightarrow>
                  (case create_items uuidv4 (Suc n) orderId pm tx2 (items req) of
                     Inl e \<Rightarrow> Inl e
                   | Inr tx3 \<Rightarrow> Inr (orderId, tx3))))"

text \<open>The two queries after the commit and the body of the 201 response.
  \<open>newOrder[0]\<close> of an empty result is \<open>undefined\<close>, and reading its id throws.\<close>

definition read_order :: "store \<Rightarrow> string \<Rightarrow> js_error + order_view" where
  "read_order s orderId =
     (case select_orders_join s (\<lambda>ord. o_id ord = orderId) of
        [] \<Rightarrow> Inl TypeError
      | r # _ \<Rightarrow> Inr (order_json r (select_order_items s orderId)))"

text \<open>The handler. A rollback gives back the store the transaction began with; the
  commit installs the store the writes produced. An exception after the commit reaches
  the same \<open>catch\<close> block, whose rollback then has nothing to undo.\<close>

definition place_order ::
  "(string \<Rightarrow> bool) \<Rightarrow> (nat \<Rightarrow> string) \<Rightarrow> user \<Rightarrow> store \<Rightarrow> order_req \<Rightarrow> response \<times> store" where
  "place_order isUUID uuidv4 usr s req =
     (case check_order isUUID s req of
        Inl (Respond r) \<Rightarrow> (r, s)
      | Inl (Throw e) \<Rightarrow> (internal_server_error, s)
      | Inr pm \<Rightarrow>
          (case write_order uuidv4 usr pm req s of
             Inl e \<Rightarrow> (internal_server_error, s)
           | Inr (orderId, s') \<Rightarrow>
               (case read_order s' orderId of
                  Inl e \<Rightarrow> (internal_server_error, s')
                | Inr v \<Rightarrow> (Response 201 (OrderCreated v), s'))))"

section \<open>PUT /api/products/:id\<close>

definition validate_patch :: "(string \<Rightarrow> bool) \<Rightarrow> product_patch \<Rightarrow> field_error list" where
  "validate_patch isUUID b =
     (case pp_name b of None \<Rightarrow> []
      | Some x \<Rightarrow> if length (trim x) < 1 then [Name_invalid] else [])
     @ (case pp_description b of None \<Rightarrow> []
        | Some x \<Rightarrow> if length (trim x) < 1 then [Description_invalid] else [])
     @ (case pp_price b of None \<Rightarrow> [] | Some x \<Rightarrow> if x < 0 then [Price_invalid] else [])
     @ (case pp_categoryId b of None \<Rightarrow> []
        | Some x \<Rightarrow> if \<not> isUUID x then [CategoryId_invalid] else [])
     @ (case pp_stock b of None \<Rightarrow> [] | Some x \<Rightarrow> if x < 0 then [Stock_invalid] else [])"

text \<open>The SET clause built from the fields that are present; name and description
  arrive trimmed by the validation chain.\<close>

definition set_fields :: "product_patch \<Rightarrow> product \<Rightarrow> product" where
  "set_fields b p =
     p\<lparr>p_name := (case pp_name b of None \<Rightarrow> p_name p | Some x \<Rightarrow> trim x),
       p_description := (case pp_description b of None \<Rightarrow> p_description p
                         | Some x \<Rightarrow> Some (trim x)),
       p_price := (case pp_price b of None \<Rightarrow> p_price p | Some x \<Rightarrow> x),
       p_image := (case pp_image b of None \<Rightarrow> p_image p | Some x \<Rightarrow> Some x),
       p_category_id := (case pp_categoryId b of None \<Rightarrow> p_category_id p | Some x \<Rightarrow> Some x),
       p_stock := (case pp_stock b of None \<Rightarrow> p_stock p | Some x \<Rightarrow> x)\<rparr>"

text \<open>\<open>SELECT p.*, c.name as category_name FROM products p LEFT JOIN categories c
  ON p.category_id = c.id WHERE p.id = ?\<close>\<close>

definition select_product_join :: "store \<Rightarrow> string \<Rightarrow> (product \<times> string option) list" where
  "select_product_join s pid =
     concat (map (\<lambda>p.
        (case filter (\<lambda>c. p_category_id p = Some (c_id c)) (categories s) of
           [] \<Rightarrow> [(p, None)]
         | cs \<Rightarrow> map (\<lambda>c. (p, Some (c_name c))) cs))
       (filter (\<lambda>p. p_id p = pid) (products s)))"

definition product_json :: "product \<times> string option \<Rightarrow> product_view" where
  "product_json r = (case r of (p, cn) \<Rightarrow>
     \<lparr>pv_id = p_id p, pv_name = p_name p, pv_description = p_description p,
      pv_price = p_price p, pv_image = p_image p, pv_category = cn, pv_stock = p_stock p,
      pv_rating = p_rating p, pv_reviews = p_reviews_count p\<rparr>)"

text \<open>The handler behind \<open>authenticateToken\<close> and \<open>requireAdmin\<close>. The one statement
  that writes is the UPDATE of the products table; its foreign key on the category can
  fail.\<close>

definition update_product ::
  "(string \<Rightarrow> bool) \<Rightarrow> store \<Rightarrow> string \<Rightarrow> product_patch \<Rightarrow> response \<times> store" where
  "update_product isUUID s productId' b =
     (let errors = validate_patch isUUID b in
      if errors \<noteq> [] then (Response 400 (ValidationErrors errors), s)
      else if filter (\<lambda>p. p_id p = productId') (products s) = []
      then (Response 404 (ErrorMessage ''Product not found''), s)
      else if pp_name b = None \<and> pp_description b = None \<and> pp_price b = None
              \<and> pp_image b = None \<and> pp_categoryId b = None \<and> pp_stock b = None
      then (Response 400 (ErrorMessage ''No fields to update''), s)
      else if (case pp_categoryId b of None \<Rightarrow> False
               | Some c \<Rightarrow> c \<notin> set (map c_id (categories s)))
      then (internal_server_error, s)
      else
        (let s' = s\<lparr>products := map (\<lambda>p. if p_id p = productId' then set_fields b p else p)
                                   (products s)\<rparr>
         in case select_product_join s' productId' of
              [] \<Rightarrow> (internal_server_error, s')
            | r # _ \<Rightarrow> (Response 200 (ProductUpdated (product_json r)), s')))"

section \<open>Notions of the specification\<close>

fun status :: "response \<Rightarrow> nat" where
  "status (Response st b) = st"

text \<open>The catalog entry of a product id: the row of the products table with that id.\<close>

definition catalog :: "store \<Rightarrow> string \<Rightarrow> product option" where
  "catalog s pid = find (\<lambda>p. p_id p = pid) (products s)"

text \<open>The primary key of the products table.\<close>

definition pk_ok :: "store \<Rightarrow> bool" where
  "pk_ok s = distinct (map p_id (products s))"

text \<open>The request passes the product resolution step of the handler.\<close>

definition resolved :: "store \<Rightarrow> order_req \<Rightarrow> bool" where
  "resolved s req =
     (length (select_products_in s (map productId (items req))) = length (items req))"

text \<open>No line asks for more than the catalog has in stock.\<close>

definition in_stock :: "store \<Rightarrow> order_req \<Rightarrow> bool" where
  "in_stock s req =
     list_all (\<lambda>it. case catalog s (productId it) of None \<Rightarrow> True
                    | Some p \<Rightarrow> quantity it \<le> p_stock p) (items req)"

text \<open>No product has a negative stock.\<close>

definition stock_ok :: "store \<Rightarrow> bool" where
  "stock_ok s = list_all (\<lambda>p. 0 \<le> p_stock p) (products s)"

text \<open>The authoritative figures of the specification (section 4.1, step 3), from the
  catalog's current unit prices.\<close>

definition authoritativeSubtotal :: "store \<Rightarrow> item_req list \<Rightarrow> rat" where
  "authoritativeSubtotal s its =
     sum_list (map (\<lambda>it. case catalog s (productId it) of None \<Rightarrow> 0
                          | Some p \<Rightarrow> p_price p * of_int (quantity it)) its)"

definition authoritativeVat :: "store \<Rightarrow> item_req list \<Rightarrow> rat" where
  "authoritativeVat s its = authoritativeSubtotal s its * (18 / 100)"

definition authoritativeTotal :: "store \<Rightarrow> item_req list \<Rightarrow> rat" where
  "authoritativeTotal s its = authoritativeSubtotal s its + authoritativeVat s its"

text \<open>The stock column of the products table.\<close>

definition stocks :: "store \<Rightarrow> int list" where
  "stocks s = map p_stock (products s)"

text \<open>A sequence of placements, each one run to its end before the next begins.\<close>

fun place_orders ::
  "(string \<Rightarrow> bool) \<Rightarrow> store \<Rightarrow> ((nat \<Rightarrow> string) \<times> user \<times> order_req) list \<Rightarrow> store" where
  "place_orders isUUID s [] = s"
| "place_orders isUUID s (c # cs) =
     (case c of (uuidv4, usr, req) \<Rightarrow>
        place_orders isUUID (snd (place_order isUUID uuidv4 usr s req)) cs)"

text \<open>Two placements on two connections whose handlers interleave at their
  \<open>await\<close>s: both run their read-only part on the store as it is, then the first one
  writes and commits, then the second one writes, on the committed store, and commits.
  The result is the store after both commits, if both handlers reach their commit.\<close>

definition place_order_interleaved ::
  "(string \<Rightarrow> bool) \<Rightarrow> (nat \<Rightarrow> string) \<Rightarrow> user \<Rightarrow> order_req
     \<Rightarrow> (nat \<Rightarrow> string) \<Rightarrow> user \<Rightarrow> order_req \<Rightarrow> store \<Rightarrow> store option" where
  "place_order_interleaved isUUID uuidA usrA reqA uuidB usrB reqB s =
     (case (check_order isUUID s reqA, check_order isUUID s reqB) of
        (Inr pmA, Inr pmB) \<Rightarrow>
          (case write_order uuidA usrA pmA reqA s of
             Inl e \<Rightarrow> None
           | Inr (orderIdA, s1) \<Rightarrow>
               (case write_order uuidB usrB pmB reqB s1 of
                  Inl e \<Rightarrow> None
                | Inr (orderIdB, s2) \<Rightarrow> Some s2))
      | _ \<Rightarrow> None)"

section \<open>Example data\<close>

text \<open>The shape of a UUID, 8-4-4-4-12 hexadecimal digits, as an instance of the
  \<open>isUUID\<close> parameter.\<close>

definition is_hex :: "char \<Rightarrow> bool" where
  "is_hex c = (c \<in> set ''0123456789abcdefABCDEF'')"

definition uuid_shape :: "string \<Rightarrow> bool" where
  "uuid_shape x =
     (map (\<lambda>c. if is_hex c then CHR ''0'' else c) x = ''00000000-0000-0000-0000-000000000000'')"

definition ex_kettle :: product where
  "ex_kettle = \<lparr>p_id = ''11111111-1111-4111-8111-111111111111'', p_name = ''Kettle'',
     p_description = None, p_price = 100000, p_image = None, p_category_id = None,
     p_stock = 10, p_rating = 0, p_reviews_count = 0\<rparr>"

definition ex_lamp :: product where
  "ex_lamp = \<lparr>p_id = ''22222222-2222-4222-8222-222222222222'', p_name = ''Lamp'',
     p_description = None, p_price = 50, p_image = None, p_category_id = None,
     p_stock = 1, p_rating = 0, p_reviews_count = 0\<rparr>"

definition ex_store :: store where
  "ex_store = \<lparr>products = [ex_kettle, ex_lamp], categories = [], addresses = [],
     orders = [], order_items = []\<rparr>"

definition ex_user :: user where
  "ex_user = \<lparr>u_id = ''alice'', u_is_admin = False\<rparr>"

definition ex_other :: user where
  "ex_other = \<lparr>u_id = ''bob'', u_is_admin = False\<rparr>"

definition ex_uuidv4 :: "nat \<Rightarrow> string" where
  "ex_uuidv4 n = ''uuid-'' @ replicate n CHR ''i''"

definition ex_uuidv4' :: "nat \<Rightarrow> string" where
  "ex_uuidv4' n = ''UUID-'' @ replicate n CHR ''j''"

text \<open>The cart of the specification's scenario: two kettles at 100000, total 236000,
  VAT 36000.\<close>

definition ex_req :: order_req where
  "ex_req = \<lparr>items = [\<lparr>productId = ''11111111-1111-4111-8111-111111111111'', quantity = 2\<rparr>],
     total = 236000, vatAmount = 36000, paymentMethod = ''card'', shippingAddress = None,
     req_notes = None\<rparr>"

text \<open>The same cart with a claimed total that is 1/128 above the authoritative one.\<close>

definition ex_req_above :: order_req where
  "ex_req_above = ex_req\<lparr>total := 236000 + 1 / 128\<rparr>"

text \<open>The same product in two lines, one kettle each, with the total of two kettles.\<close>

definition ex_req_twice :: order_req where
  "ex_req_twice = ex_req\<lparr>items :=
     [\<lparr>productId = ''11111111-1111-4111-8111-111111111111'', quantity = 1\<rparr>,
      \<lparr>productId = ''11111111-1111-4111-8111-111111111111'', quantity = 1\<rparr>]\<rparr>"

text \<open>Two lamps, of which one is in stock.\<close>

definition ex_req_lamps :: order_req where
  "ex_req_lamps = ex_req\<lparr>items :=
     [\<lparr>productId = ''22222222-2222-4222-8222-222222222222'', quantity = 2\<rparr>],
     total := 118, vatAmount := 18\<rparr>"

text \<open>One lamp, the last one.\<close>

definition ex_req_lamp :: order_req where
  "ex_req_lamp = ex_req\<lparr>items :=
     [\<lparr>productId = ''22222222-2222-4222-8222-222222222222'', quantity = 1\<rparr>],
     total := 59, vatAmount := 9\<rparr>"

definition ex_req_tampered :: order_req where
  "ex_req_tampered = ex_req\<lparr>total := 999999\<rparr>"

definition ex_req_cheque :: order_req where
  "ex_req_cheque = ex_req\<lparr>paymentMethod := ''cheque''\<rparr>"

text \<open>A shipping address object without any of its fields.\<close>

definition ex_req_no_street :: order_req where
  "ex_req_no_street = ex_req\<lparr>shippingAddress :=
     Some \<lparr>street = None, city = None, district = None, country = None\<rparr>\<rparr>"

definition ex_price_patch :: product_patch where
  "ex_price_patch = \<lparr>pp_name = None, pp_description = None, pp_price = Some 120000,
     pp_image = None, pp_categoryId = None, pp_stock = None\<rparr>"

text \<open>The store after the placement of \<open>ex_req\<close> by \<open>ex_user\<close>.\<close>

definition ex_store_after :: store where
  "ex_store_after = \<lparr>products = [ex_kettle\<lparr>p_stock := 8\<rparr>, ex_lamp], categories = [],
     addresses = [],
     orders = [\<lparr>o_id = ''uuid-'', o_user_id = ''alice'', o_total = 236000,
                o_vat_amount = 36000, o_status = Pending, o_payment_method = ''card'',
                o_shipping_address_id = None, o_notes = None\<rparr>],
     order_items = [\<lparr>oi_id = ''uuid-i'', oi_order_id = ''uuid-'',
                     oi_product_id = ''11111111-1111-4111-8111-111111111111'',
                     oi_quantity = 2, oi_price = 100000\<rparr>]\<rparr>"

definition ex_view :: order_view where
  "ex_view = \<lparr>ov_id = ''uuid-'', ov_total = 236000, ov_vatAmount = 36000,
     ov_status = Pending, ov_paymentMethod = ''card'', ov_notes = None,
     ov_shippingAddress = None,
     ov_items = [\<lparr>iv_id = ''uuid-i'',
                  iv_productId = ''11111111-1111-4111-8111-111111111111'',
                  iv_name = ''Kettle'', iv_image = None, iv_quantity = 2,
                  iv_price = 100000\<rparr>]\<rparr>"

text \<open>The store after the placement of \<open>ex_req_lamp\<close> by \<open>ex_user\<close>.\<close>

definition ex_store_sold :: store where
  "ex_store_sold = \<lparr>products = [ex_kettle, ex_lamp\<lparr>p_stock := 0\<rparr>], categories = [],
     addresses = [],
     orders = [\<lparr>o_id = ''uuid-'', o_user_id = ''alice'', o_total = 59,
                o_vat_amount = 9, o_status = Pending, o_payment_method = ''card'',
                o_shipping_address_id = None, o_notes = None\<rparr>],
     order_items = [\<lparr>oi_id = ''uuid-i'', oi_order_id = ''uuid-'',
                     oi_product_id = ''22222222-2222-4222-8222-222222222222'',
                     oi_quantity = 1, oi_price = 50\<rparr>]\<rparr>"

text \<open>Two customers who each order the last lamp, one after the other.\<close>

definition ex_calls :: "((nat \<Rightarrow> string) \<times> user \<times> order_req) list" where
  "ex_calls = [(ex_uuidv4, ex_user, ex_req_lamp), (ex_uuidv4', ex_other, ex_req_lamp)]"

section \<open>Evaluation of the examples\<close>

lemmas ex_defs = ex_store_def ex_kettle_def ex_lamp_def ex_user_def ex_other_def ex_uuidv4_def
  ex_uuidv4'_def ex_req_def ex_req_above_def ex_req_twice_def ex_req_lamps_def ex_req_lamp_def
  ex_req_tampered_def ex_req_cheque_def ex_req_no_street_def ex_store_after_def ex_view_def
  ex_price_patch_def ex_store_sold_def

lemmas model_defs = place_order_def check_order_def write_order_def read_order_def
  validationResult_def select_products_in_def productMap_def insert_order_def
  insert_order_item_def insert_address_def update_stock_def select_orders_join_def
  select_order_items_def order_json_def item_json_def expectedVat_def expectedTotal_def
  uuid_shape_def is_hex_def internal_server_error_def products_not_found_def
  insufficient_stock_def invalid_total_def order_not_found_def Let_def

lemmas spec_defs = catalog_def pk_ok_def resolved_def in_stock_def stock_ok_def stocks_def
  authoritativeSubtotal_def authoritativeVat_def authoritativeTotal_def

lemma ex_store_pk: "pk_ok ex_store"
  by (simp add: ex_defs spec_defs)

lemma ex_req_valid: "validationResult uuid_shape ex_req = []"
  by (simp add: ex_defs validationResult_def uuid_shape_def is_hex_def)

lemma ex_lamp_sold:
  "snd (place_order uuid_shape ex_uuidv4 ex_user ex_store ex_req_lamp) = ex_store_sold"
  by (simp add: ex_defs model_defs)

lemma ex_lamp_gone:
  "snd (place_order uuid_shape ex_uuidv4' ex_other ex_store_sold ex_req_lamp) = ex_store_sold"
  by (simp add: ex_defs model_defs)

lemma ex_calls_placed: "place_orders uuid_shape ex_store ex_calls = ex_store_sold"
  by (simp add: ex_calls_def ex_lamp_sold ex_lamp_gone)


section \<open>The tables a statement leaves alone\<close>

lemma update_stock_frame:
  "orders (update_stock tx q pid) = orders tx"
  "addresses (update_stock tx q pid) = addresses tx"
  "categories (update_stock tx q pid) = categories tx"
  "order_items (update_stock tx q pid) = order_items tx"
  "map p_id (products (update_stock tx q pid)) = map p_id (products tx)"
  by (simp_all add: update_stock_def comp_def if_distrib cong: if_cong)

lemma insert_order_item_frame:
  assumes "insert_order_item tx iid oid pid q pr = Inr tx'"
  shows "orders tx' = orders tx" "addresses tx' = addresses tx"
    "categories tx' = categories tx" "products tx' = products tx"
    "order_items tx' = order_items tx @
       [\<lparr>oi_id = iid, oi_order_id = oid, oi_product_id = pid, oi_quantity = q, oi_price = pr\<rparr>]"
  using assms by (auto simp: insert_order_item_def split: if_splits)

lemma create_items_frame:
  "create_items g n oid pm tx its = Inr tx' \<Longrightarrow>
     orders tx' = orders tx \<and> addresses tx' = addresses tx \<and> categories tx' = categories tx"
proof (induction its arbitrary: n tx)
  case Nil
  then show ?case by simp
next
  case (Cons it its)
  then show ?case
    by (fastforce simp: update_stock_frame split: option.splits sum.splits
        dest: insert_order_item_frame)
qed

lemma write_order_header:
  assumes "write_order g usr pm req tx = Inr (oid, tx')"
  shows "\<exists>ord. orders tx' = orders tx @ [ord] \<and> o_id ord = oid \<and> o_user_id ord = u_id usr
           \<and> o_total ord = total req \<and> o_vat_amount ord = vatAmount req
           \<and> o_status ord = Pending \<and> o_payment_method ord = paymentMethod req"
  using assms
  by (auto simp: write_order_def insert_order_def insert_address_def Let_def
      split: option.splits sum.splits if_splits prod.splits dest!: create_items_frame)

lemma select_orders_join_nonempty:
  assumes "ord \<in> set (orders s)" "cond ord"
  shows "select_orders_join s cond \<noteq> []"
proof -
  from assms have "ord \<in> set (filter cond (orders s))" by simp
  then show ?thesis
    unfolding select_orders_join_def
    by (auto split: list.splits)
qed

lemma read_order_defined:
  assumes "ord \<in> set (orders s)" "o_id ord = oid"
  shows "\<exists>v. read_order s oid = Inr v"
  using select_orders_join_nonempty [of ord s "\<lambda>ord. o_id ord = oid"] assms
  by (auto simp: read_order_def split: list.splits)

lemma place_order_created_or_unchanged:
  "(\<exists>v. fst (place_order isUUID g usr s req) = Response 201 (OrderCreated v))
     \<or> snd (place_order isUUID g usr s req) = s"
proof (cases "check_order isUUID s req")
  case (Inl e)
  then show ?thesis by (cases e) (simp_all add: place_order_def)
next
  case (Inr pm)
  show ?thesis
  proof (cases "write_order g usr pm req s")
    case (Inl e)
    with Inr show ?thesis by (simp add: place_order_def)
  next
    case (Inr r)
    obtain oid s' where r: "r = (oid, s')" by (cases r)
    from write_order_header [OF Inr [unfolded r]]
    obtain ord where "ord \<in> set (orders s')" "o_id ord = oid" by fastforce
    from read_order_defined [OF this] obtain v where "read_order s' oid = Inr v" ..
    with \<open>check_order isUUID s req = Inr pm\<close> Inr r show ?thesis
      by (simp add: place_order_def)
  qed
qed

section \<open>The catalog and the product resolution step\<close>

lemma find_distinct_key:
  "distinct (map f ps) \<Longrightarrow> p \<in> set ps \<Longrightarrow> find (\<lambda>q. f q = f p) ps = Some p"
  by (induction ps) (auto simp: image_iff)

lemma catalog_Some:
  "catalog s pid = Some p \<Longrightarrow> p \<in> set (products s) \<and> p_id p = pid"
  by (auto simp: catalog_def find_Some_iff)

lemma catalog_unique:
  "pk_ok s \<Longrightarrow> p \<in> set (products s) \<Longrightarrow> catalog s (p_id p) = Some p"
  by (simp add: catalog_def pk_ok_def find_distinct_key)

lemma catalog_None: "catalog s pid = None \<longleftrightarrow> pid \<notin> p_id ` set (products s)"
  by (auto simp: catalog_def find_None_iff)

lemma productMap_Some:
  "productMap ps k = Some p \<Longrightarrow> p \<in> set ps \<and> p_id p = k"
  by (auto simp: productMap_def dest!: map_of_SomeD)

lemma productMap_None: "productMap ps k = None \<longleftrightarrow> k \<notin> p_id ` set ps"
  by (simp add: productMap_def map_of_eq_None_iff image_image)

lemma productMap_catalog:
  assumes "pk_ok s" "k \<in> set ids"
  shows "productMap (select_products_in s ids) k = catalog s k"
proof (cases "catalog s k")
  case None
  then have "k \<notin> p_id ` set (select_products_in s ids)"
    by (auto simp: catalog_None select_products_in_def)
  with None show ?thesis by (simp add: productMap_None)
next
  case (Some p)
  then have p: "p \<in> set (products s)" "p_id p = k" by (auto dest: catalog_Some)
  with assms have "k \<in> p_id ` set (select_products_in s ids)"
    by (auto simp: select_products_in_def image_iff)
  then obtain q where "productMap (select_products_in s ids) k = Some q"
    using productMap_None [of "select_products_in s ids" k] by auto
  moreover from this have "q \<in> set (products s)" "p_id q = k"
    by (auto dest!: productMap_Some simp: select_products_in_def)
  then have "catalog s k = Some q" using catalog_unique [OF assms(1)] by auto
  ultimately show ?thesis by simp
qed

lemma resolved_iff:
  assumes "pk_ok s"
  shows "resolved s req \<longleftrightarrow>
           distinct (map productId (items req))
           \<and> (\<forall>it \<in> set (items req). catalog s (productId it) \<noteq> None)"
proof -
  let ?ids = "map productId (items req)"
  let ?rows = "select_products_in s ?ids"
  have d: "distinct (map p_id ?rows)"
    using assms by (simp add: pk_ok_def select_products_in_def distinct_map_filter)
  have sub: "set (map p_id ?rows) \<subseteq> set ?ids"
    by (auto simp: select_products_in_def)
  have len: "length ?rows = card (set (map p_id ?rows))"
    using distinct_card [OF d] by simp
  have le1: "card (set (map p_id ?rows)) \<le> card (set ?ids)"
    using sub by (simp add: card_mono)
  have le2: "card (set ?ids) \<le> length ?ids" by (rule card_length)
  show ?thesis
  proof
    assume "resolved s req"
    then have eq: "length ?rows = length ?ids" by (simp add: resolved_def)
    with len le1 le2 have c1: "card (set ?ids) = length ?ids"
      and c2: "card (set (map p_id ?rows)) = card (set ?ids)" by simp_all
    from c1 have "distinct ?ids" by (rule card_distinct)
    moreover from sub c2 have "set (map p_id ?rows) = set ?ids"
      by (simp add: card_subset_eq)
    then have "\<forall>it \<in> set (items req). catalog s (productId it) \<noteq> None"
      by (auto simp: catalog_None select_products_in_def image_iff)
    ultimately show "distinct ?ids \<and> (\<forall>it \<in> set (items req). catalog s (productId it) \<noteq> None)"
      by simp
  next
    assume a: "distinct ?ids \<and> (\<forall>it \<in> set (items req). catalog s (productId it) \<noteq> None)"
    then have "set ?ids \<subseteq> set (map p_id ?rows)"
      by (simp add: catalog_None select_products_in_def image_iff subset_iff) metis
    with sub have "set (map p_id ?rows) = set ?ids" by auto
    then have "card (set (map p_id ?rows)) = card (set ?ids)" by simp
    moreover from a have "card (set ?ids) = length ?ids" by (simp only: distinct_card)
    ultimately show "resolved s req"
      using len by (simp add: resolved_def)
  qed
qed

section \<open>The stock check and the totals\<close>

lemma check_stock_cong:
  "(\<And>it. it \<in> set its \<Longrightarrow> pm (productId it) = pm' (productId it)) \<Longrightarrow>
     check_stock pm its c = check_stock pm' its c"
  by (induction its arbitrary: c) (auto split: option.splits)

lemma check_stock_in_stock:
  "\<lbrakk>\<forall>it \<in> set its. catalog s (productId it) \<noteq> None;
    list_all (\<lambda>it. case catalog s (productId it) of None \<Rightarrow> True
                    | Some p \<Rightarrow> quantity it \<le> p_stock p) its\<rbrakk>
   \<Longrightarrow> check_stock (catalog s) its c = Inr (c + authoritativeSubtotal s its)"
  by (induction its arbitrary: c) (auto simp: authoritativeSubtotal_def)

lemma check_stock_short:
  "\<lbrakk>\<forall>it \<in> set its. catalog s (productId it) \<noteq> None;
    \<not> list_all (\<lambda>it. case catalog s (productId it) of None \<Rightarrow> True
                      | Some p \<Rightarrow> quantity it \<le> p_stock p) its\<rbrakk>
   \<Longrightarrow> \<exists>it \<in> set its. \<exists>p. catalog s (productId it) = Some p \<and> p_stock p < quantity it
         \<and> check_stock (catalog s) its c = Inl (Respond (insufficient_stock (p_name p)))"
proof (induction its arbitrary: c)
  case Nil
  then show ?case by simp
next
  case (Cons it its)
  from Cons.prems(1) obtain p where p: "catalog s (productId it) = Some p" by auto
  show ?case
  proof (cases "p_stock p < quantity it")
    case True
    with p show ?thesis by auto
  next
    case False
    with Cons.prems p have
      "\<not> list_all (\<lambda>it. case catalog s (productId it) of None \<Rightarrow> True
                        | Some p \<Rightarrow> quantity it \<le> p_stock p) its"
      by auto
    from Cons.IH [OF _ this, of "c + p_price p * of_int (quantity it)"] Cons.prems(1)
    obtain it' p' where "it' \<in> set its" "catalog s (productId it') = Some p'"
      "p_stock p' < quantity it'"
      "check_stock (catalog s) its (c + p_price p * of_int (quantity it))
         = Inl (Respond (insufficient_stock (p_name p')))"
      by auto
    with p False show ?thesis by auto
  qed
qed

text \<open>The read-only part of the handler on a request that passes the validation and
  the product resolution, in terms of the catalog.\<close>

lemma check_order_resolved:
  assumes "pk_ok s" "validationResult isUUID req = []" "resolved s req"
  shows "check_order isUUID s req =
           (case check_stock (catalog s) (items req) 0 of
              Inl e \<Rightarrow> Inl e
            | Inr calculatedTotal \<Rightarrow>
                if \<bar>expectedTotal calculatedTotal - total req\<bar> > 1 / 100
                   \<or> \<bar>expectedVat calculatedTotal - vatAmount req\<bar> > 1 / 100
                then Inl (Respond invalid_total)
                else Inr (productMap (select_products_in s (map productId (items req)))))"
proof -
  have "check_stock (productMap (select_products_in s (map productId (items req)))) (items req) 0
          = check_stock (catalog s) (items req) 0"
    by (rule check_stock_cong) (simp add: productMap_catalog [OF assms(1)])
  with assms(2,3) show ?thesis
    by (simp add: check_order_def resolved_def Let_def)
qed

lemma check_order_Inr:
  assumes "check_order isUUID s req = Inr pm"
  shows "validationResult isUUID req = [] \<and> resolved s req"
  using assms
  by (auto simp: check_order_def resolved_def Let_def split: if_splits sum.splits)

lemma expected_authoritative:
  "expectedVat (authoritativeSubtotal s its) = authoritativeVat s its"
  "expectedTotal (authoritativeSubtotal s its) = authoritativeTotal s its"
  by (simp_all add: expectedVat_def expectedTotal_def authoritativeVat_def authoritativeTotal_def)



lemma check_stock_Inr:
  "check_stock pm its c = Inr t \<Longrightarrow>
     \<forall>it \<in> set its. \<exists>p. pm (productId it) = Some p \<and> quantity it \<le> p_stock p"
  by (induction its arbitrary: c) (auto split: option.splits if_splits)

lemma check_order_passed:
  assumes "pk_ok s" "check_order isUUID s req = Inr pm"
  shows "\<bar>authoritativeTotal s (items req) - total req\<bar> \<le> 1 / 100"
    and "\<bar>authoritativeVat s (items req) - vatAmount req\<bar> \<le> 1 / 100"
    and "in_stock s req"
    and "pm = productMap (select_products_in s (map productId (items req)))"
proof -
  from check_order_Inr [OF assms(2)]
  have v: "validationResult isUUID req = []" and r: "resolved s req" by simp_all
  from assms(1) r have present: "\<forall>it \<in> set (items req). catalog s (productId it) \<noteq> None"
    by (simp add: resolved_iff)
  note co = check_order_resolved [OF assms(1) v r]
  from co assms(2) obtain t where t: "check_stock (catalog s) (items req) 0 = Inr t"
    by (cases "check_stock (catalog s) (items req) 0") auto
  from check_stock_Inr [OF t] show stock: "in_stock s req"
    by (auto simp: in_stock_def list_all_iff)
  from check_stock_in_stock [OF present, of 0] stock t
  have "t = authoritativeSubtotal s (items req)" by (simp add: in_stock_def)
  with co t assms(2) show "\<bar>authoritativeTotal s (items req) - total req\<bar> \<le> 1 / 100"
    and "\<bar>authoritativeVat s (items req) - vatAmount req\<bar> \<le> 1 / 100"
    and "pm = productMap (select_products_in s (map productId (items req)))"
    by (auto simp: expected_authoritative split: if_splits)
qed

lemma check_stock_status:
  "check_stock pm its c = Inl (Respond r) \<Longrightarrow> status r = 400"
  by (induction its arbitrary: c)
    (auto simp: insufficient_stock_def split: option.splits if_splits)

lemma check_order_status:
  "check_order isUUID s req = Inl (Respond r) \<Longrightarrow> status r = 400"
  by (auto simp: check_order_def Let_def products_not_found_def invalid_total_def
      split: if_splits sum.splits dest: check_stock_status)

lemma place_order_created:
  assumes "place_order isUUID uuidv4 usr s req = (Response 201 (OrderCreated v), s')"
  shows "\<exists>pm orderId. check_order isUUID s req = Inr pm
           \<and> write_order uuidv4 usr pm req s = Inr (orderId, s')
           \<and> read_order s' orderId = Inr v"
  using assms
  by (auto simp: place_order_def internal_server_error_def
      split: sum.splits exit.splits prod.splits dest: check_order_status)

section \<open>The writes of a placement\<close>

lemma create_items_lines:
  "create_items g n oid pm tx its = Inr tx' \<Longrightarrow>
     \<exists>lines. order_items tx' = order_items tx @ lines
       \<and> map oi_product_id lines = map productId its
       \<and> map oi_quantity lines = map quantity its
       \<and> map oi_price lines = map (\<lambda>it. p_price (the (pm (productId it)))) its
       \<and> list_all (\<lambda>l. oi_order_id l = oid) lines"
proof (induction its arbitrary: n tx)
  case Nil
  then show ?case by simp
next
  case (Cons it its)
  from Cons.prems obtain p tx1
    where p: "pm (productId it) = Some p"
      and i: "insert_order_item tx (g n) oid (productId it) (quantity it) (p_price p) = Inr tx1"
      and r: "create_items g (Suc n) oid pm (update_stock tx1 (quantity it) (productId it)) its
                = Inr tx'"
    by (auto split: option.splits sum.splits)
  from Cons.IH [OF r] obtain lines
    where l: "order_items tx' = order_items (update_stock tx1 (quantity it) (productId it)) @ lines"
      "map oi_product_id lines = map productId its"
      "map oi_quantity lines = map quantity its"
      "map oi_price lines = map (\<lambda>it. p_price (the (pm (productId it)))) its"
      "list_all (\<lambda>l. oi_order_id l = oid) lines" by blast
  let ?l = "\<lparr>oi_id = g n, oi_order_id = oid, oi_product_id = productId it,
             oi_quantity = quantity it, oi_price = p_price p\<rparr>"
  from l(1) insert_order_item_frame(5) [OF i]
  have "order_items tx' = order_items tx @ (?l # lines)"
    by (simp add: update_stock_frame)
  with l(2-5) p show ?case
    by (intro exI [of _ "?l # lines"]) simp
qed

lemma write_order_lines:
  assumes "write_order g usr pm req tx = Inr (oid, tx')"
  shows "\<exists>lines. order_items tx' = order_items tx @ lines
       \<and> map oi_product_id lines = map productId (items req)
       \<and> map oi_quantity lines = map quantity (items req)
       \<and> map oi_price lines = map (\<lambda>it. p_price (the (pm (productId it)))) (items req)
       \<and> list_all (\<lambda>l. oi_order_id l = oid) lines"
  using assms
  by (auto simp: write_order_def insert_order_def insert_address_def Let_def
      split: option.splits sum.splits if_splits prod.splits dest!: create_items_lines)

lemma left_join_fst:
  "r \<in> set (case xs of [] \<Rightarrow> [(ord, None)] | a # as \<Rightarrow> map (\<lambda>a. (ord, Some a)) (a # as))
     \<Longrightarrow> fst r = ord"
  by (cases xs) auto

lemma select_orders_join_cond:
  "r \<in> set (select_orders_join s cond) \<Longrightarrow> cond (fst r) \<and> fst r \<in> set (orders s)"
  by (auto simp: select_orders_join_def dest!: left_join_fst)

lemma read_order_id: "read_order s oid = Inr v \<Longrightarrow> ov_id v = oid"
proof -
  assume a: "read_order s oid = Inr v"
  then obtain r rs where r: "select_orders_join s (\<lambda>ord. o_id ord = oid) = r # rs"
    and v: "v = order_json r (select_order_items s oid)"
    by (auto simp: read_order_def split: list.splits)
  from r have "r \<in> set (select_orders_join s (\<lambda>ord. o_id ord = oid))" by simp
  from select_orders_join_cond [OF this] v show ?thesis
    by (cases r) (simp add: order_json_def)
qed

lemma created_order_lines:
  assumes "place_order isUUID uuidv4 usr s req = (Response 201 (OrderCreated v), s')"
  shows "\<exists>lines. order_items s' = order_items s @ lines
           \<and> length lines = length (items req)
           \<and> map oi_product_id lines = map productId (items req)
           \<and> map oi_quantity lines = map quantity (items req)
           \<and> list_all (\<lambda>l. oi_order_id l = ov_id v) lines"
proof -
  from place_order_created [OF assms] obtain pm orderId
    where w: "write_order uuidv4 usr pm req s = Inr (orderId, s')"
      and r: "read_order s' orderId = Inr v" by blast
  from write_order_lines [OF w] obtain lines
    where l: "order_items s' = order_items s @ lines"
      "map oi_product_id lines = map productId (items req)"
      "map oi_quantity lines = map quantity (items req)"
      "list_all (\<lambda>l. oi_order_id l = orderId) lines" by blast
  from l(2) have "length lines = length (items req)" by (rule map_eq_imp_length_eq)
  with l read_order_id [OF r] show ?thesis by blast
qed

lemma create_items_product_ids:
  "create_items g n oid pm tx its = Inr tx' \<Longrightarrow>
     map p_id (products tx') = map p_id (products tx)"
proof (induction its arbitrary: n tx)
  case Nil
  then show ?case by simp
next
  case (Cons it its)
  then show ?case
    by (fastforce simp: update_stock_frame split: option.splits sum.splits
        dest: insert_order_item_frame)
qed

lemma update_stock_stock_ok:
  assumes "stock_ok tx"
    and "\<forall>p \<in> set (products tx). p_id p = pid \<longrightarrow> q \<le> p_stock p"
  shows "stock_ok (update_stock tx q pid)"
  using assms by (auto simp: stock_ok_def update_stock_def list_all_iff)

lemma update_stock_other:
  assumes "p \<in> set (products (update_stock tx q pid))" "p_id p \<noteq> pid"
  shows "p \<in> set (products tx)"
  using assms by (auto simp: update_stock_def split: if_splits)

lemma create_items_stock_ok:
  "\<lbrakk>create_items g n oid pm tx its = Inr tx'; distinct (map productId its);
    \<forall>it \<in> set its. \<forall>p \<in> set (products tx). p_id p = productId it \<longrightarrow> quantity it \<le> p_stock p;
    stock_ok tx\<rbrakk> \<Longrightarrow> stock_ok tx'"
proof (induction its arbitrary: n tx)
  case Nil
  then show ?case by simp
next
  case (Cons it its)
  from Cons.prems(1) obtain p tx1
    where "pm (productId it) = Some p"
      and i: "insert_order_item tx (g n) oid (productId it) (quantity it) (p_price p) = Inr tx1"
      and r: "create_items g (Suc n) oid pm (update_stock tx1 (quantity it) (productId it)) its
                = Inr tx'"
    by (auto split: option.splits sum.splits)
  let ?tx2 = "update_stock tx1 (quantity it) (productId it)"
  have same: "products tx1 = products tx" by (rule insert_order_item_frame(4) [OF i])
  from Cons.prems(4) same have ok1: "stock_ok tx1" by (simp add: stock_ok_def)
  have ok2: "stock_ok ?tx2"
    by (rule update_stock_stock_ok [OF ok1]) (use Cons.prems(3) same in auto)
  have rest: "\<forall>it' \<in> set its. \<forall>p \<in> set (products ?tx2).
                 p_id p = productId it' \<longrightarrow> quantity it' \<le> p_stock p"
  proof (intro ballI impI)
    fix it' p
    assume a: "it' \<in> set its" "p \<in> set (products ?tx2)" "p_id p = productId it'"
    with Cons.prems(2) have "p_id p \<noteq> productId it" by (auto simp: image_iff)
    from update_stock_other [OF a(2) this] same have "p \<in> set (products tx)" by simp
    with Cons.prems(3) a show "quantity it' \<le> p_stock p" by auto
  qed
  from Cons.prems(2) have "distinct (map productId its)" by simp
  from Cons.IH [OF r this rest ok2] show ?case .
qed

lemma write_order_items:
  assumes "write_order g usr pm req tx = Inr (oid, tx')"
  shows "\<exists>n tx2. products tx2 = products tx
           \<and> create_items g n oid pm tx2 (items req) = Inr tx'"
  using assms
  by (auto simp: write_order_def insert_order_def insert_address_def Let_def
      split: option.splits sum.splits if_splits prod.splits)

lemma in_stock_rows:
  assumes "pk_ok s" "in_stock s req"
  shows "\<forall>it \<in> set (items req). \<forall>p \<in> set (products s).
           p_id p = productId it \<longrightarrow> quantity it \<le> p_stock p"
proof (intro ballI impI)
  fix it p
  assume a: "it \<in> set (items req)" "p \<in> set (products s)" "p_id p = productId it"
  from catalog_unique [OF assms(1) a(2)] a(3) have "catalog s (productId it) = Some p" by simp
  with assms(2) a(1) show "quantity it \<le> p_stock p"
    by (auto simp: in_stock_def list_all_iff)
qed

lemma place_order_invariant:
  assumes "pk_ok s" "stock_ok s"
  shows "pk_ok (snd (place_order isUUID g usr s req))
       \<and> stock_ok (snd (place_order isUUID g usr s req))"
proof -
  from place_order_created_or_unchanged [of isUUID g usr s req]
  show ?thesis
  proof
    assume "\<exists>v. fst (place_order isUUID g usr s req) = Response 201 (OrderCreated v)"
    then obtain v where
      "place_order isUUID g usr s req
         = (Response 201 (OrderCreated v), snd (place_order isUUID g usr s req))"
      by (metis prod.collapse)
    from place_order_created [OF this] obtain pm oid
      where c: "check_order isUUID s req = Inr pm"
        and w: "write_order g usr pm req s = Inr (oid, snd (place_order isUUID g usr s req))"
      by blast
    from write_order_items [OF w] obtain n tx2
      where tx2: "products tx2 = products s"
        and ci: "create_items g n oid pm tx2 (items req)
                   = Inr (snd (place_order isUUID g usr s req))" by blast
    from check_order_Inr [OF c] assms(1) have d: "distinct (map productId (items req))"
      by (simp add: resolved_iff)
    from in_stock_rows [OF assms(1) check_order_passed(3) [OF assms(1) c]] tx2
    have rows: "\<forall>it \<in> set (items req). \<forall>p \<in> set (products tx2).
                  p_id p = productId it \<longrightarrow> quantity it \<le> p_stock p" by simp
    from assms(2) tx2 have "stock_ok tx2" by (simp add: stock_ok_def)
    from create_items_stock_ok [OF ci d rows this]
    have "stock_ok (snd (place_order isUUID g usr s req))" .
    moreover from create_items_product_ids [OF ci] tx2 assms(1)
    have "pk_ok (snd (place_order isUUID g usr s req))" by (simp add: pk_ok_def)
    ultimately show ?thesis by simp
  next
    assume "snd (place_order isUUID g usr s req) = s"
    with assms show ?thesis by simp
  qed
qed

lemma place_orders_invariant:
  "pk_ok s \<Longrightarrow> stock_ok s \<Longrightarrow>
     pk_ok (place_orders isUUID s calls) \<and> stock_ok (place_orders isUUID s calls)"
proof (induction calls arbitrary: s)
  case Nil
  then show ?case by simp
next
  case (Cons c calls)
  obtain g usr req where c: "c = (g, usr, req)" by (cases c)
  from place_order_invariant [OF Cons.prems, of isUUID g usr req] Cons.IH c
  show ?case by simp
qed

lemma short_order_rejected:
  assumes "pk_ok s" "validationResult isUUID req = []" "resolved s req" "\<not> in_stock s req"
  shows "\<exists>it \<in> set (items req). \<exists>p. catalog s (productId it) = Some p
           \<and> p_stock p < quantity it
           \<and> place_order isUUID uuidv4 usr s req = (insufficient_stock (p_name p), s)"
proof -
  from assms(1,3) have present: "\<forall>it \<in> set (items req). catalog s (productId it) \<noteq> None"
    by (simp add: resolved_iff)
  from check_stock_short [OF present, of 0] assms(4)
  obtain it p where ip: "it \<in> set (items req)" "catalog s (productId it) = Some p"
    "p_stock p < quantity it"
    "check_stock (catalog s) (items req) 0 = Inl (Respond (insufficient_stock (p_name p)))"
    by (auto simp: in_stock_def)
  from check_order_resolved [OF assms(1-3)] ip(4)
  have "check_order isUUID s req = Inl (Respond (insufficient_stock (p_name p)))" by simp
  then have "place_order isUUID uuidv4 usr s req = (insufficient_stock (p_name p), s)"
    by (simp add: place_order_def)
  with ip show ?thesis by blast
qed

section \<open>Rejections\<close>



text \<open>
  C9. For an input that fails validation, two successive calls of the order placement
  with that input, from the same initial store, both answer 400 with the same validation
  errors, and the store after each of them is the initial store.
\<close>

theorem validation_failure_idempotent:
  "validationResult isUUID req \<noteq> [] \<Longrightarrow>
     place_order isUUID uuidv4 usr s req
       = (Response 400 (ValidationErrors (validationResult isUUID req)), s)
     \<and> place_order isUUID uuidv4' usr (snd (place_order isUUID uuidv4 usr s req)) req
       = (Response 400 (ValidationErrors (validationResult isUUID req)), s)"
  by (simp add: place_order_def check_order_def)

theorem validation_failure_idempotent_witness:
  "validationResult uuid_shape ex_req_cheque \<noteq> []
   \<and> (place_order uuid_shape ex_uuidv4 ex_user ex_store ex_req_cheque
         = (Response 400 (ValidationErrors (validationResult uuid_shape ex_req_cheque)), ex_store)
      \<and> place_order uuid_shape ex_uuidv4' ex_user
           (snd (place_order uuid_shape ex_uuidv4 ex_user ex_store ex_req_cheque)) ex_req_cheque
         = (Response 400 (ValidationErrors (validationResult uuid_shape ex_req_cheque)), ex_store))"
proof -
  have h: "validationResult uuid_shape ex_req_cheque \<noteq> []"
    by (simp add: ex_defs validationResult_def uuid_shape_def is_hex_def)
  show ?thesis by (rule conjI [OF h validation_failure_idempotent [OF h]])
qed

text \<open>
  C6. A request is answered "Some products not found" exactly when one of the product
  ids it names is absent from the catalog. The handler compares the number of rows it
  resolved with the number of lines of the request: a request that names the kettle in
  two lines, a product of the catalog, is answered "Some products not found".
\<close>

theorem duplicate_ids_not_found:
  "validationResult uuid_shape ex_req_twice = []
   \<and> map (catalog ex_store) (map productId (items ex_req_twice))
       = [Some ex_kettle, Some ex_kettle]
   \<and> place_order uuid_shape ex_uuidv4 ex_user ex_store ex_req_twice
       = (products_not_found, ex_store)"
  by (simp add: ex_defs model_defs spec_defs)

text \<open>
  C7. A request that names the same product in more than one line, every line in stock,
  is placed with one order line per entry. Every placement the handler completes does
  add one order line per entry (\<open>created_order_lines\<close>), but the request with two lines
  of one kettle each, valid and with the right total, is answered 400 and adds no order
  line.
\<close>

theorem duplicate_ids_no_order:
  "in_stock ex_store ex_req_twice
   \<and> authoritativeTotal ex_store (items ex_req_twice) = total ex_req_twice
   \<and> authoritativeVat ex_store (items ex_req_twice) = vatAmount ex_req_twice
   \<and> status (fst (place_order uuid_shape ex_uuidv4 ex_user ex_store ex_req_twice)) = 400
   \<and> order_items (snd (place_order uuid_shape ex_uuidv4 ex_user ex_store ex_req_twice)) = []"
  by (simp add: ex_defs model_defs spec_defs)



section \<open>The totals\<close>






section \<open>The stock\<close>

text \<open>
  C3. In every sequence of order placements that run one after the other, from a store
  whose product ids are unique and whose stocks are not negative, no stock becomes
  negative; and a placement that passes the validation and the product resolution with
  a line whose quantity exceeds the stock is answered "Insufficient stock" and changes
  nothing. The check is the one on the snapshot read at the beginning of the handler:
  the stock update itself is unconditional.
\<close>

theorem stock_never_negative_sequential:
  assumes "pk_ok s" "stock_ok s"
  shows "stock_ok (place_orders isUUID s calls)
       \<and> (validationResult isUUID req = [] \<longrightarrow> resolved s req \<longrightarrow> \<not> in_stock s req \<longrightarrow>
            (\<exists>name. place_order isUUID uuidv4 usr s req = (insufficient_stock name, s)))"
  using place_orders_invariant [OF assms] short_order_rejected [OF assms(1)]
  by blast

theorem stock_never_negative_sequential_witness:
  "(pk_ok ex_store \<and> stock_ok ex_store)
   \<and> stock_ok (place_orders uuid_shape ex_store ex_calls)
   \<and> stocks (place_orders uuid_shape ex_store ex_calls) = [10, 0]
   \<and> (validationResult uuid_shape ex_req_lamps = [] \<and> resolved ex_store ex_req_lamps
        \<and> \<not> in_stock ex_store ex_req_lamps)
   \<and> (\<exists>name. place_order uuid_shape ex_uuidv4 ex_user ex_store ex_req_lamps
                = (insufficient_stock name, ex_store))"
proof -
  have h1: "pk_ok ex_store" by (rule ex_store_pk)
  have h2: "stock_ok ex_store" by (simp add: ex_defs stock_ok_def)
  have h3: "validationResult uuid_shape ex_req_lamps = []"
    by (simp add: ex_defs validationResult_def uuid_shape_def is_hex_def)
  have h4: "resolved ex_store ex_req_lamps"
    by (simp add: ex_defs resolved_def select_products_in_def)
  have h5: "\<not> in_stock ex_store ex_req_lamps"
    by (simp add: ex_defs in_stock_def catalog_def)
  have e: "stocks (place_orders uuid_shape ex_store ex_calls) = [10, 0]"
    by (simp add: ex_calls_placed) (simp add: ex_defs stocks_def)
  from h1 h2 h3 h4 h5 e
    stock_never_negative_sequential [OF h1 h2, of uuid_shape ex_calls ex_req_lamps ex_uuidv4 ex_user]
  show ?thesis by blast
qed

text \<open>
  Two handlers that both read the stock of the last lamp before either of them writes
  both reach their commit, and the stock of the lamp is -1 afterwards.
\<close>

theorem interleaved_orders_negative_stock:
  "stocks ex_store = [10, 1]
   \<and> map_option stocks
       (place_order_interleaved uuid_shape ex_uuidv4 ex_user ex_req_lamp
          ex_uuidv4' ex_other ex_req_lamp ex_store) = Some [10, - 1]"
  by (simp add: ex_defs model_defs stocks_def place_order_interleaved_def)

section \<open>The price snapshot\<close>

text \<open>
  C8. The product update writes the products table only: the rows of order_items, and
  with them the price recorded on every order line, are the same after the update as
  before it, whatever the update changes in the catalog; so are the orders, the
  addresses and the categories.
\<close>

theorem update_product_keeps_order_items:
  "order_items (snd (update_product isUUID s pid b)) = order_items s
   \<and> orders (snd (update_product isUUID s pid b)) = orders s
   \<and> addresses (snd (update_product isUUID s pid b)) = addresses s
   \<and> categories (snd (update_product isUUID s pid b)) = categories s"
  by (simp add: update_product_def Let_def split: list.splits)

theorem update_product_keeps_order_items_witness:
  "map p_price (products (snd (update_product uuid_shape ex_store_after
       ''11111111-1111-4111-8111-111111111111'' ex_price_patch))) = [120000, 50]
   \<and> map oi_price (order_items ex_store_after) = [100000]
   \<and> order_items (snd (update_product uuid_shape ex_store_after
       ''11111111-1111-4111-8111-111111111111'' ex_price_patch)) = order_items ex_store_after"
proof -
  have e1: "map p_price (products (snd (update_product uuid_shape ex_store_after
       ''11111111-1111-4111-8111-111111111111'' ex_price_patch))) = [120000, 50]"
    by (simp add: ex_defs update_product_def validate_patch_def set_fields_def
        select_product_join_def Let_def)
  have e2: "map oi_price (order_items ex_store_after) = [100000]"
    by (simp add: ex_defs)
  from e1 e2 update_product_keeps_order_items [of uuid_shape ex_store_after
      "''11111111-1111-4111-8111-111111111111''" ex_price_patch]
  show ?thesis by blast
qed

section \<open>Reading an order\<close>

lemma select_orders_join_empty:
  "select_orders_join s cond = [] \<longleftrightarrow> (\<forall>ord \<in> set (orders s). \<not> cond ord)"
proof
  assume "select_orders_join s cond = []"
  with select_orders_join_nonempty [of _ s cond] show "\<forall>ord \<in> set (orders s). \<not> cond ord"
    by blast
next
  assume a: "\<forall>ord \<in> set (orders s). \<not> cond ord"
  show "select_orders_join s cond = []"
  proof (cases "select_orders_join s cond")
    case Nil
    then show ?thesis .
  next
    case (Cons r rs)
    then have "r \<in> set (select_orders_join s cond)" by simp
    from select_orders_join_cond [OF this] a show ?thesis by blast
  qed
qed

text \<open>
  C10. The single-order retrieval answers with the order only when an order with that
  id exists and the caller is its owner or an admin. A caller who is not an admin and
  owns no order with that id gets 404 "Order not found", whether such an order exists
  or not: the answer is the one of a store that has no order with that id.
\<close>

theorem get_order_owner_or_admin:
  "(get_order usr s oid \<noteq> order_not_found \<longrightarrow>
      (\<exists>ord \<in> set (orders s). o_id ord = oid \<and> (o_user_id ord = u_id usr \<or> u_is_admin usr))
      \<and> (\<exists>v. get_order usr s oid = Response 200 (OrderJson v) \<and> ov_id v = oid))
   \<and> (\<not> u_is_admin usr \<longrightarrow>
        u_id usr \<notin> set (map o_user_id (filter (\<lambda>ord. o_id ord = oid) (orders s))) \<longrightarrow>
        get_order usr s oid = order_not_found
        \<and> get_order usr (s\<lparr>orders := filter (\<lambda>ord. o_id ord \<noteq> oid) (orders s)\<rparr>) oid
            = order_not_found)"
proof (intro conjI impI)
  let ?cond = "\<lambda>ord. o_id ord = oid \<and> (o_user_id ord = u_id usr \<or> u_is_admin usr)"
  assume a: "get_order usr s oid \<noteq> order_not_found"
  then obtain r rs where r: "select_orders_join s ?cond = r # rs"
    by (cases "select_orders_join s ?cond") (auto simp: get_order_def)
  then have "r \<in> set (select_orders_join s ?cond)" by simp
  from select_orders_join_cond [OF this]
  have c: "?cond (fst r)" "fst r \<in> set (orders s)" by simp_all
  then show "\<exists>ord \<in> set (orders s). o_id ord = oid
               \<and> (o_user_id ord = u_id usr \<or> u_is_admin usr)" by blast
  from r c show "\<exists>v. get_order usr s oid = Response 200 (OrderJson v) \<and> ov_id v = oid"
    by (cases r) (simp add: get_order_def order_json_def)
next
  assume "\<not> u_is_admin usr"
    "u_id usr \<notin> set (map o_user_id (filter (\<lambda>ord. o_id ord = oid) (orders s)))"
  then have "select_orders_join s
      (\<lambda>ord. o_id ord = oid \<and> (o_user_id ord = u_id usr \<or> u_is_admin usr)) = []"
    unfolding select_orders_join_empty by (fastforce simp: image_iff)
  then show "get_order usr s oid = order_not_found"
    by (simp add: get_order_def)
next
  have "select_orders_join (s\<lparr>orders := filter (\<lambda>ord. o_id ord \<noteq> oid) (orders s)\<rparr>)
      (\<lambda>ord. o_id ord = oid \<and> (o_user_id ord = u_id usr \<or> u_is_admin usr)) = []"
    by (simp add: select_orders_join_empty)
  then show "get_order usr (s\<lparr>orders := filter (\<lambda>ord. o_id ord \<noteq> oid) (orders s)\<rparr>) oid
          = order_not_found"
    by (simp add: get_order_def)
qed

theorem get_order_owner_or_admin_witness:
  "(get_order ex_user ex_store_after ''uuid-'' \<noteq> order_not_found
      \<and> (\<exists>v. get_order ex_user ex_store_after ''uuid-'' = Response 200 (OrderJson v)
             \<and> ov_id v = ''uuid-''))
   \<and> (\<not> u_is_admin ex_other
        \<and> u_id ex_other \<notin> set (map o_user_id
             (filter (\<lambda>ord. o_id ord = ''uuid-'') (orders ex_store_after))))
   \<and> map o_id (orders ex_store_after) = [''uuid-'']
   \<and> get_order ex_other ex_store_after ''uuid-'' = order_not_found"
proof -
  have h1: "get_order ex_user ex_store_after ''uuid-'' \<noteq> order_not_found"
    by (simp add: ex_defs model_defs get_order_def)
  have h2: "\<not> u_is_admin ex_other" by (simp add: ex_defs)
  have h3: "u_id ex_other \<notin> set (map o_user_id
             (filter (\<lambda>ord. o_id ord = ''uuid-'') (orders ex_store_after)))"
    by (simp add: ex_defs)
  have e: "map o_id (orders ex_store_after) = [''uuid-'']" by (simp add: ex_defs)
  from h1 h2 h3 e get_order_owner_or_admin [of ex_user ex_store_after "''uuid-''"]
    get_order_owner_or_admin [of ex_other ex_store_after "''uuid-''"]
  show ?thesis by blast
qed

end
